theory Spec2Isabelle
  imports Main
begin

section \<open>Python values and exceptions\<close>

text \<open>
  The scraper of \<^verbatim>\<open>src/backend/utils/WebScraper.py\<close> talks to two browser back ends, an
  HTML parser, a language model and the JSON parser. Every one of these calls can raise.
  An exception is kept with its class, as far as a handler of the source tells classes
  apart, and with its message, which is what \<^verbatim>\<open>str(e)\<close> yields.
\<close>

datatype exn = JSONDecodeError string | TypeError string | Exception string

fun str_exn :: "exn \<Rightarrow> string" where
  "str_exn (JSONDecodeError m) = m"
| "str_exn (TypeError m) = m"
| "str_exn (Exception m) = m"

text \<open>
  What \<^verbatim>\<open>json.loads\<close> can return. A dictionary is an association list in insertion order.
  A float is carried as its literal: no claim computes with it.
\<close>

datatype json =
    JNull
  | JBool bool
  | JInt int
  | JFloat string
  | JStr string
  | JList "json list"
  | JDict "(string \<times> json) list"

text \<open>Python strings: characters are code points below 256, whitespace is \<^verbatim>\<open>str.isspace\<close>.\<close>

definition py_isspace :: "char \<Rightarrow> bool" where
  "py_isspace c = (of_char c \<in> set [9, 10, 11, 12, 13, 28, 29, 30, 31, 32, 133, 160 :: nat])"

abbreviation not_space :: "char \<Rightarrow> bool" where
  "not_space \<equiv> (\<lambda>c. \<not> py_isspace c)"

text \<open>\<^verbatim>\<open>s.strip()\<close>\<close>

definition strip :: "string \<Rightarrow> string" where
  "strip s = rev (dropWhile py_isspace (rev (dropWhile py_isspace s)))"

text \<open>\<^verbatim>\<open>s.split()\<close>: the maximal runs of characters that are not whitespace.\<close>

function split_ws :: "string \<Rightarrow> string list" where
  "split_ws s =
     (case dropWhile py_isspace s of
        [] \<Rightarrow> []
      | c # cs \<Rightarrow> takeWhile not_space (c # cs) # split_ws (dropWhile not_space (c # cs)))"
  by pat_completeness auto
termination
proof (relation "measure length")
  show "wf (measure length)" by simp
next
  fix s :: string and c cs
  assume h: "dropWhile py_isspace s = c # cs"
  have "\<not> py_isspace c"
    using h dropWhile_eq_Cons_conv [of py_isspace s c cs] by simp
  then have "dropWhile not_space (c # cs) = dropWhile not_space cs" by simp
  moreover have "length (dropWhile not_space cs) \<le> length cs" by (rule length_dropWhile_le)
  moreover have "length (dropWhile py_isspace s) \<le> length s" by (rule length_dropWhile_le)
  ultimately show "(dropWhile not_space (c # cs), s) \<in> measure length" using h by simp
qed

declare split_ws.simps [simp del]

text \<open>\<^verbatim>\<open>sep.join(xs)\<close>\<close>

fun join :: "string \<Rightarrow> string list \<Rightarrow> string" where
  "join sep [] = []"
| "join sep [x] = x"
| "join sep (x # y # ys) = x @ sep @ join sep (y # ys)"

text \<open>\<^verbatim>\<open>k in s\<close> on two strings: \<open>k\<close> occurs in \<open>s\<close> as a contiguous piece.\<close>

fun py_contains :: "string \<Rightarrow> string \<Rightarrow> bool" where
  "py_contains k [] = (k = [])"
| "py_contains k (c # cs) = (take (length k) (c # cs) = k \<or> py_contains k cs)"

text \<open>The message of CPython's TypeError for \<^verbatim>\<open>in\<close> on a value that is no container.\<close>

definition not_iterable :: "string \<Rightarrow> exn" where
  "not_iterable ty =
     TypeError (''argument of type '' @ [CHR 0x27] @ ty @ [CHR 0x27] @ '' is not iterable'')"

text \<open>
  \<^verbatim>\<open>k in v\<close> for a string \<open>k\<close>: a key of a dictionary, an element of a list, a piece of a
  string; on \<^verbatim>\<open>None\<close>, a bool or a number it raises.
\<close>

fun py_in :: "string \<Rightarrow> json \<Rightarrow> exn + bool" where
  "py_in k (JDict kvs) = Inr (k \<in> set (map fst kvs))"
| "py_in k (JList xs) = Inr (JStr k \<in> set xs)"
| "py_in k (JStr s) = Inr (py_contains k s)"
| "py_in k JNull = Inl (not_iterable ''NoneType'')"
| "py_in k (JBool b) = Inl (not_iterable ''bool'')"
| "py_in k (JInt i) = Inl (not_iterable ''int'')"
| "py_in k (JFloat f) = Inl (not_iterable ''float'')"

text \<open>Whether a returned value is a dictionary with the key \<open>k\<close>.\<close>

fun has_key :: "string \<Rightarrow> json \<Rightarrow> bool" where
  "has_key k (JDict kvs) = (k \<in> set (map fst kvs))"
| "has_key k v = False"

text \<open>\<^verbatim>\<open>d[k]\<close> read as an option: the value under the key \<open>k\<close> of a dictionary.\<close>

fun lookup :: "string \<Rightarrow> json \<Rightarrow> json option" where
  "lookup k (JDict kvs) = map_of kvs k"
| "lookup k v = None"

text \<open>\<^verbatim>\<open>r["metadata"]["last_verified"]\<close>, when both keys are there.\<close>

definition last_verified :: "json \<Rightarrow> json option" where
  "last_verified r =
     (case lookup ''metadata'' r of None \<Rightarrow> None | Some m \<Rightarrow> lookup ''last_verified'' m)"

section \<open>The parsed page\<close>

text \<open>
  BeautifulSoup's tree: a tag with its children, a text string that \<^verbatim>\<open>get_text\<close> reads, or
  a string it passes over (a comment, a doctype, a declaration).
\<close>

datatype node = Text string | Comment string | Tag string "node list"

text \<open>
  \<^verbatim>\<open>for element in soup.find_all(names): element.decompose()\<close>: every tag with one of the
  names goes, with all below it, at any depth.
\<close>

fun decompose :: "string list \<Rightarrow> node \<Rightarrow> node list" where
  "decompose names (Text s) = [Text s]"
| "decompose names (Comment s) = [Comment s]"
| "decompose names (Tag t cs) =
     (if t \<in> set names then [] else [Tag t (concat (map (decompose names) cs))])"

definition unwanted :: "string list" where
  "unwanted = [''style'', ''script'', ''header'', ''footer'', ''nav'', ''aside'']"

definition decompose_all :: "node list \<Rightarrow> node list" where
  "decompose_all soup = concat (map (decompose unwanted) soup)"

fun all_strings :: "node \<Rightarrow> string list" where
  "all_strings (Text s) = [s]"
| "all_strings (Comment s) = []"
| "all_strings (Tag t cs) = concat (map all_strings cs)"

text \<open>
  \<^verbatim>\<open>soup.get_text(separator=' ', strip=True)\<close>: every text string stripped, the empty ones
  dropped, the rest joined by one space.
\<close>

definition get_text :: "node list \<Rightarrow> string" where
  "get_text soup =
     join '' '' (filter (\<lambda>s. s \<noteq> []) (map strip (concat (map all_strings soup))))"

text \<open>Lines 70 to 83 of \<^verbatim>\<open>extract_main_content\<close>, on the parsed page.\<close>

definition clean_text :: "node list \<Rightarrow> string" where
  "clean_text soup =
     (let text = get_text (decompose_all soup);
          text = join '' '' (split_ws text)
      in if length text < 200 then [] else text)"

text \<open>
  The words of the specification, for comparison: the visible text is what is left after
  the six kinds of element are removed, and collapsing replaces every maximal run of
  whitespace by one space.
\<close>

definition visible_text :: "node list \<Rightarrow> string" where
  "visible_text soup = get_text (decompose_all soup)"

fun collapse_runs :: "string \<Rightarrow> string" where
  "collapse_runs [] = []"
| "collapse_runs [c] = [if py_isspace c then CHR '' '' else c]"
| "collapse_runs (c # d # cs) =
     (if py_isspace c
      then (if py_isspace d then collapse_runs (d # cs) else CHR '' '' # collapse_runs (d # cs))
      else c # collapse_runs (d # cs))"

text \<open>
  A page "containing only script, style and nav elements with no other text": every text
  string outside such an element is blank.
\<close>

fun no_other_text :: "node \<Rightarrow> bool" where
  "no_other_text (Text s) = (strip s = [])"
| "no_other_text (Comment s) = True"
| "no_other_text (Tag t cs) =
     (t \<in> set [''script'', ''style'', ''nav''] \<or> list_all no_other_text cs)"

section \<open>The scraper\<close>

text \<open>
  What the world answers. The calls made inside the retry loop are indexed by the attempt
  (each is made at most once per attempt); \<open>None\<close> is a call that returns, \<open>Some e\<close>
  one that raises \<open>e\<close>. The two calls of \<^verbatim>\<open>cleanup\<close> have answers of their own.
  \<^item> \<open>launch\<close>: \<^verbatim>\<open>pyppeteer.launch(...)\<close>; \<open>chrome\<close>: \<^verbatim>\<open>webdriver.Chrome(...)\<close>;
  \<^item> \<open>selenium_get\<close>, \<open>page_source\<close>, \<open>quit\<close>: \<^verbatim>\<open>browser.get(url)\<close>,
    \<^verbatim>\<open>browser.page_source\<close>, \<^verbatim>\<open>browser.quit()\<close> of Selenium;
  \<^item> \<open>newPage\<close>, \<open>goto\<close>, \<open>page_content\<close>, \<open>page_close\<close>: \<^verbatim>\<open>browser.newPage()\<close>,
    \<^verbatim>\<open>page.goto(url, ...)\<close>, \<^verbatim>\<open>page.content()\<close>, \<^verbatim>\<open>page.close()\<close> of Pyppeteer;
  \<^item> \<open>html_parser\<close>: \<^verbatim>\<open>BeautifulSoup(content, 'html.parser')\<close>;
  \<^item> \<open>completion\<close>: the chat completion for the prompt built from text and url, up to
    \<^verbatim>\<open>response.choices[0].message.content\<close>;
  \<^item> \<open>json_loads\<close>: \<^verbatim>\<open>json.loads\<close>; \<open>today\<close>: \<^verbatim>\<open>time.strftime("%Y-%m-%d")\<close>.
\<close>

record env =
  launch :: "nat \<Rightarrow> exn option"
  chrome :: "nat \<Rightarrow> exn option"
  selenium_get :: "nat \<Rightarrow> string \<Rightarrow> exn option"
  page_source :: "nat \<Rightarrow> exn + string"
  quit :: "nat \<Rightarrow> exn option"
  newPage :: "nat \<Rightarrow> exn option"
  goto :: "nat \<Rightarrow> string \<Rightarrow> exn option"
  page_content :: "nat \<Rightarrow> exn + string"
  page_close :: "nat \<Rightarrow> exn option"
  html_parser :: "string \<Rightarrow> exn + node list"
  completion :: "string \<Rightarrow> string \<Rightarrow> exn + string"
  json_loads :: "string \<Rightarrow> exn + json"
  today :: string
  cleanup_quit :: "exn option"
  cleanup_close :: "exn option"

text \<open>
  \<^verbatim>\<open>self.browser\<close> is \<^verbatim>\<open>None\<close>, a Pyppeteer browser or a Selenium \<^verbatim>\<open>webdriver.Chrome\<close>.
  The scraper also carries the calls it has made on browsers, in order.
\<close>

datatype browser = Pyppeteer | Chrome

datatype event =
    EvLaunch browser
  | EvGet string
  | EvPageSource
  | EvQuit
  | EvNewPage
  | EvGoto string
  | EvContent
  | EvPageClose
  | EvClose

record scraper =
  browser :: "browser option"
  events :: "event list"

definition init_scraper :: scraper where
  "init_scraper = \<lparr>browser = None, events = []\<rparr>"

definition log :: "event \<Rightarrow> scraper \<Rightarrow> scraper" where
  "log ev s = s\<lparr>events := events s @ [ev]\<rparr>"

text \<open>A launched session is open until \<^verbatim>\<open>quit()\<close> or \<^verbatim>\<open>close()\<close> is called on the browser.\<close>

fun session_step :: "event \<Rightarrow> bool \<Rightarrow> bool" where
  "session_step (EvLaunch b) open = True"
| "session_step EvQuit open = False"
| "session_step EvClose open = False"
| "session_step ev open = open"

definition session_open :: "event list \<Rightarrow> bool" where
  "session_open evs = fold session_step evs False"

definition initialize_pyppeteer :: "env \<Rightarrow> nat \<Rightarrow> scraper \<Rightarrow> (exn + unit) \<times> scraper" where
  "initialize_pyppeteer env n s =
     (case launch env n of
        Some e \<Rightarrow> (Inl e, s)
      | None \<Rightarrow> (Inr (), log (EvLaunch Pyppeteer) (s\<lparr>browser := Some Pyppeteer\<rparr>)))"

definition initialize_selenium :: "env \<Rightarrow> nat \<Rightarrow> scraper \<Rightarrow> (exn + unit) \<times> scraper" where
  "initialize_selenium env n s =
     (case chrome env n of
        Some e \<Rightarrow> (Inl e, s)
      | None \<Rightarrow> (Inr (), log (EvLaunch Chrome) (s\<lparr>browser := Some Chrome\<rparr>)))"

definition cleanup :: "env \<Rightarrow> scraper \<Rightarrow> (exn + unit) \<times> scraper" where
  "cleanup env s =
     (case browser s of
        None \<Rightarrow> (Inr (), s)
      | Some Chrome \<Rightarrow>
          (case cleanup_quit env of Some e \<Rightarrow> (Inl e, log EvQuit s) | None \<Rightarrow> (Inr (), log EvQuit s))
      | Some Pyppeteer \<Rightarrow>
          (case cleanup_close env of
             Some e \<Rightarrow> (Inl e, log EvClose s)
           | None \<Rightarrow> (Inr (), log EvClose s)))"

text \<open>\<^verbatim>\<open>extract_main_content(page)\<close> on the page of attempt \<open>n\<close>: any exception gives \<^verbatim>\<open>""\<close>.\<close>

definition extract_main_content :: "env \<Rightarrow> nat \<Rightarrow> string" where
  "extract_main_content env n =
     (case page_content env n of
        Inl e \<Rightarrow> []
      | Inr content \<Rightarrow>
          (case html_parser env content of
             Inl e \<Rightarrow> []
           | Inr soup \<Rightarrow> clean_text soup))"

definition error_result :: "exn \<Rightarrow> json" where
  "error_result e = JDict [(''error'', JStr (str_exn e))]"

definition default_result :: "env \<Rightarrow> string \<Rightarrow> string \<Rightarrow> json" where
  "default_result env text url =
     JDict [(''text'', JStr text),
            (''metadata'', JDict [
               (''source_url'', JStr url),
               (''title'', JStr ''Unknown''),
               (''main_topics'', JStr []),
               (''key_events'', JStr []),
               (''author'', JStr ''Unknown''),
               (''locations'', JStr []),
               (''publication_date'', JStr []),
               (''maritime_terms'', JStr []),
               (''content_type'', JStr ''maritime_article''),
               (''last_verified'', JStr (today env))])]"

text \<open>
  The inner \<^verbatim>\<open>try\<close> of \<^verbatim>\<open>process_with_llm\<close>: \<open>Inr (Some v)\<close> is \<^verbatim>\<open>return result_json\<close>,
  \<open>Inr None\<close> falls through to the fallback, \<open>Inl e\<close> is an exception that the
  \<^verbatim>\<open>except json.JSONDecodeError\<close> clause does not catch. The \<^verbatim>\<open>and\<close> does not evaluate
  its right operand when the left one is false.
\<close>

definition parse_result :: "env \<Rightarrow> string \<Rightarrow> exn + json option" where
  "parse_result env result =
     (case json_loads env result of
        Inl (JSONDecodeError m) \<Rightarrow> Inr None
      | Inl e \<Rightarrow> Inl e
      | Inr result_json \<Rightarrow>
          (case py_in ''text'' result_json of
             Inl e \<Rightarrow> Inl e
           | Inr False \<Rightarrow> Inr None
           | Inr True \<Rightarrow>
               (case py_in ''metadata'' result_json of
                  Inl e \<Rightarrow> Inl e
                | Inr False \<Rightarrow> Inr None
                | Inr True \<Rightarrow> Inr (Some result_json))))"

definition process_with_llm :: "env \<Rightarrow> string \<Rightarrow> string \<Rightarrow> json" where
  "process_with_llm env text url =
     (case completion env text url of
        Inl e \<Rightarrow> error_result e
      | Inr content \<Rightarrow>
          (case parse_result env (strip content) of
             Inl e \<Rightarrow> error_result e
           | Inr (Some result_json) \<Rightarrow> result_json
           | Inr None \<Rightarrow> default_result env text url))"

definition no_content :: json where
  "no_content = JDict [(''error'', JStr ''No content extracted'')]"

text \<open>The Selenium branch of the \<^verbatim>\<open>try\<close> block: \<open>Inr r\<close> is \<^verbatim>\<open>return r\<close>.\<close>

definition selenium_scrape :: "env \<Rightarrow> string \<Rightarrow> nat \<Rightarrow> scraper \<Rightarrow> (exn + json) \<times> scraper" where
  "selenium_scrape env url n s =
     (let s1 = log (EvGet url) s in
      case selenium_get env n url of
        Some e \<Rightarrow> (Inl e, s1)
      | None \<Rightarrow>
          (let s2 = log EvPageSource s1 in
           case page_source env n of
             Inl e \<Rightarrow> (Inl e, s2)
           | Inr content \<Rightarrow>
               (case html_parser env content of
                  Inl e \<Rightarrow> (Inl e, s2)
                | Inr soup \<Rightarrow>
                    (let text = get_text soup in
                     if length text < 200 then (Inr no_content, s2)
                     else (Inr (process_with_llm env content url), s2)))))"

text \<open>The Pyppeteer branch.\<close>

definition pyppeteer_scrape :: "env \<Rightarrow> string \<Rightarrow> nat \<Rightarrow> scraper \<Rightarrow> (exn + json) \<times> scraper" where
  "pyppeteer_scrape env url n s =
     (let s1 = log EvNewPage s in
      case newPage env n of
        Some e \<Rightarrow> (Inl e, s1)
      | None \<Rightarrow>
          (let s2 = log (EvGoto url) s1 in
           case goto env n url of
             Some e \<Rightarrow> (Inl e, s2)
           | None \<Rightarrow>
               (let s3 = log EvContent s2;
                    content = extract_main_content env n
                in if content = [] then (Inr no_content, s3)
                   else (let s4 = log EvPageClose s3 in
                         case page_close env n of
                           Some e \<Rightarrow> (Inl e, s4)
                         | None \<Rightarrow> (Inr (process_with_llm env content url), s4)))))"

text \<open>The \<^verbatim>\<open>try\<close> block of one attempt.\<close>

definition attempt_body :: "env \<Rightarrow> string \<Rightarrow> nat \<Rightarrow> scraper \<Rightarrow> (exn + json) \<times> scraper" where
  "attempt_body env url attempt s =
     (case (if browser s = None
            then (if attempt = 0 then initialize_pyppeteer env attempt s
                  else initialize_selenium env attempt s)
            else (Inr (), s)) of
        (Inl e, s0) \<Rightarrow> (Inl e, s0)
      | (Inr u, s0) \<Rightarrow>
          (if browser s0 = Some Chrome then selenium_scrape env url attempt s0
           else pyppeteer_scrape env url attempt s0))"

text \<open>
  The \<^verbatim>\<open>except\<close> clause, up to its test of the attempt count: a Selenium browser is
  quit, and \<^verbatim>\<open>quit()\<close> may raise in turn. \<open>attempt\<close> is the index of the failed attempt.
\<close>

definition on_failure :: "env \<Rightarrow> nat \<Rightarrow> scraper \<Rightarrow> exn option \<times> scraper" where
  "on_failure env attempt s =
     (if browser s = Some Chrome then (quit env attempt, log EvQuit s) else (None, s))"

definition retry_count :: nat where
  "retry_count = 2"

text \<open>
  The \<^verbatim>\<open>while attempt < retry_count\<close> loop. \<open>Inl e\<close> is an exception that leaves the loop
  (one raised inside the handler); a loop that ends without \<^verbatim>\<open>return\<close> gives \<^verbatim>\<open>None\<close>.
\<close>

function scrape_loop :: "env \<Rightarrow> string \<Rightarrow> nat \<Rightarrow> scraper \<Rightarrow> (exn + json) \<times> scraper" where
  "scrape_loop env url attempt s =
     (if attempt < retry_count then
        (case attempt_body env url attempt s of
           (Inr r, s1) \<Rightarrow> (Inr r, s1)
         | (Inl e, s1) \<Rightarrow>
             (case on_failure env attempt s1 of
                (Some q, s2) \<Rightarrow> (Inl q, s2)
              | (None, s2) \<Rightarrow>
                  if attempt + 1 = retry_count then (Inr (error_result e), s2)
                  else scrape_loop env url (attempt + 1) s2))
      else (Inr JNull, s))"
  by pat_completeness auto
termination
  by (relation "measure (\<lambda>(env, url, attempt, s). retry_count - attempt)") auto

declare scrape_loop.simps [simp del]

text \<open>\<^verbatim>\<open>scrape_url\<close>: the outer handler turns what leaves the loop into an error result.\<close>

definition scrape_url :: "env \<Rightarrow> string \<Rightarrow> scraper \<Rightarrow> (exn + json) \<times> scraper" where
  "scrape_url env url s =
     (case scrape_loop env url 0 s of
        (Inl e, s') \<Rightarrow> (Inr (error_result e), s')
      | (Inr r, s') \<Rightarrow> (Inr r, s'))"

text \<open>
  \<^verbatim>\<open>main\<close>: a new scraper, \<^verbatim>\<open>scrape_url\<close>, and \<^verbatim>\<open>cleanup\<close> in the \<^verbatim>\<open>finally\<close> clause.
  An exception of \<^verbatim>\<open>cleanup\<close> replaces the outcome.
\<close>

definition main :: "env \<Rightarrow> string \<Rightarrow> (exn + json) \<times> scraper" where
  "main env url =
     (case scrape_url env url init_scraper of
        (r, s) \<Rightarrow>
          (case cleanup env s of
             (Inl e, s') \<Rightarrow> (Inl e, s')
           | (Inr u, s') \<Rightarrow> (r, s')))"

section \<open>The create-document route\<close>

text \<open>
  \<^verbatim>\<open>create_document\<close> of \<^verbatim>\<open>src/backend/routes.py\<close>. The handlers of the route tell three
  classes of exception apart. The embedding provider and the vector store are the world:
  \<open>embeddings_create\<close> answers with \<^verbatim>\<open>response.data\<close> as the list of its embeddings,
  \<open>store_documents\<close> with the ids. The route's calls are recorded with their arguments; a
  call of the scraper would be recorded as \<open>ScrapeCall\<close>.
\<close>

datatype route_exn = HTTPException nat string | OpenAIError string | OtherError string

type_synonym document = "(string \<times> string) list"

record 'v route_env =
  embeddings_create :: "string \<Rightarrow> route_exn + 'v list list"
  store_documents :: "document list \<Rightarrow> 'v list list \<Rightarrow> route_exn + string list"

datatype 'v call =
    ScrapeCall string
  | EmbedCall string
  | StoreCall "document list" "'v list list"

record 'v created =
  message :: string
  document_ids :: "string list"
  content :: string
  embeddings :: "'v list"

text \<open>
  The outer handlers: an \<^verbatim>\<open>HTTPException\<close> is raised again as it is, any other exception
  becomes status 500 with its message.
\<close>

fun outer_handler :: "route_exn \<Rightarrow> route_exn" where
  "outer_handler (HTTPException code detail) = HTTPException code detail"
| "outer_handler (OpenAIError m) = HTTPException 500 m"
| "outer_handler (OtherError m) = HTTPException 500 m"

text \<open>The handler around the embedding call catches \<^verbatim>\<open>openai.OpenAIError\<close> only.\<close>

fun embedding_handler :: "route_exn \<Rightarrow> route_exn" where
  "embedding_handler (OpenAIError m) = HTTPException 500 ''Error generating embeddings''"
| "embedding_handler e = e"

definition document_text :: string where
  "document_text = ''THIS IS THE CONTENT OF DOCUMENT 4''"

definition create_document ::
    "'v route_env \<Rightarrow> string \<Rightarrow> (route_exn + 'v created) \<times> 'v call list" where
  "create_document env url =
     (if url = [] then (Inl (HTTPException 400 ''URL is required''), [])
      else
        (let text = document_text in
         if text = [] then (Inl (HTTPException 400 ''No text content extracted''), [])
         else
           (case embeddings_create env text of
              Inl e \<Rightarrow> (Inl (outer_handler (embedding_handler e)), [EmbedCall text])
            | Inr data \<Rightarrow>
                if data = [] \<or> hd data = []
                then (Inl (HTTPException 500 ''Failed to generate embeddings''), [EmbedCall text])
                else
                  (let embeddings = hd data;
                       documents = [[(''text'', text), (''title'', ''Scraped Document''),
                                     (''source_url'', url)]];
                       calls = [EmbedCall text, StoreCall documents [embeddings]]
                   in case store_documents env documents [embeddings] of
                        Inl e \<Rightarrow> (Inl (outer_handler e), calls)
                      | Inr ids \<Rightarrow>
                          (Inr \<lparr>message = ''Document created and stored successfully!'',
                                document_ids = ids,
                                content = take 200 text,
                                embeddings = take 10 embeddings\<rparr>, calls)))))"

text \<open>What a recorded call embeds or stores as document text; a scraper call has none.\<close>

fun call_texts :: "'v call \<Rightarrow> string option list" where
  "call_texts (ScrapeCall u) = []"
| "call_texts (EmbedCall t) = [Some t]"
| "call_texts (StoreCall docs embs) = map (\<lambda>d. map_of d ''text'') docs"

fun is_scrape :: "'v call \<Rightarrow> bool" where
  "is_scrape (ScrapeCall u) = True"
| "is_scrape c = False"

section \<open>Concrete pages and worlds\<close>

text \<open>
  The scenario of the specification: a script and a paragraph of sixty words; the same
  with ten words; a page of script, style and nav elements only; and a paragraph of two
  letters with 250 spaces between them. Each page is given as its text and as the tree
  that the parser makes of it.
\<close>

definition words_html :: string where
  "words_html =
     ''<html><body><script>x</script><p>'' @ concat (replicate 60 ''word '')
       @ ''</p></body></html>''"

definition words_soup :: "node list" where
  "words_soup =
     [Tag ''html'' [Tag ''body''
        [Tag ''script'' [Text ''x''], Tag ''p'' [Text (concat (replicate 60 ''word ''))]]]]"

definition few_words_html :: string where
  "few_words_html =
     ''<html><body><script>x</script><p>'' @ concat (replicate 10 ''word '')
       @ ''</p></body></html>''"

definition few_words_soup :: "node list" where
  "few_words_soup =
     [Tag ''html'' [Tag ''body''
        [Tag ''script'' [Text ''x''], Tag ''p'' [Text (concat (replicate 10 ''word ''))]]]]"

definition scripts_html :: string where
  "scripts_html =
     ''<html><body><script>'' @ replicate 300 CHR ''x'' @ ''</script>'' @ [CHR 0x0A]
       @ ''<style>p { color: red }</style><nav><a>Home</a></nav></body></html>''"

definition scripts_soup :: "node list" where
  "scripts_soup =
     [Tag ''html'' [Tag ''body''
        [Tag ''script'' [Text (replicate 300 CHR ''x'')], Text [CHR 0x0A],
         Tag ''style'' [Text ''p { color: red }''],
         Tag ''nav'' [Tag ''a'' [Text ''Home'']]]]]"

definition gap_html :: string where
  "gap_html = ''<p>a'' @ replicate 250 CHR '' '' @ ''b</p>''"

definition gap_soup :: "node list" where
  "gap_soup = [Tag ''p'' [Text (''a'' @ replicate 250 CHR '' '' @ ''b'')]]"

text \<open>
  A world in which every call returns: each page is the sixty-word page, and the language
  model answers with text that is not JSON.
\<close>

definition quiet_env :: env where
  "quiet_env =
     \<lparr>launch = (\<lambda>n. None),
      chrome = (\<lambda>n. None),
      selenium_get = (\<lambda>n u. None),
      page_source = (\<lambda>n. Inr words_html),
      quit = (\<lambda>n. None),
      newPage = (\<lambda>n. None),
      goto = (\<lambda>n u. None),
      page_content = (\<lambda>n. Inr words_html),
      page_close = (\<lambda>n. None),
      html_parser = (\<lambda>c. Inr words_soup),
      completion = (\<lambda>text u. Inr ''Sorry, I cannot help with that.''),
      json_loads = (\<lambda>r. Inl (JSONDecodeError ''Expecting value: line 1 column 1 (char 0)'')),
      today = ''2026-11-04'',
      cleanup_quit = None,
      cleanup_close = None\<rparr>"

text \<open>Pyppeteer launches, and its first navigation times out.\<close>

definition nav_fail_env :: env where
  "nav_fail_env =
     quiet_env\<lparr>goto := (\<lambda>n u. if n = 0 then Some (Exception ''Navigation Timeout Exceeded'')
                               else None)\<rparr>"

text \<open>Pyppeteer does not launch.\<close>

definition launch_fail_env :: env where
  "launch_fail_env = quiet_env\<lparr>launch := (\<lambda>n. Some (Exception ''Browser closed unexpectedly''))\<rparr>"

text \<open>Pyppeteer does not launch, and the navigation of Selenium fails.\<close>

definition both_fail_env :: env where
  "both_fail_env =
     quiet_env\<lparr>launch := (\<lambda>n. Some (Exception ''Browser closed unexpectedly'')),
               selenium_get := (\<lambda>n u. Some (Exception ''net::ERR_NAME_NOT_RESOLVED''))\<rparr>"

text \<open>Pyppeteer reads the ten-word page; Selenium would read the sixty-word page.\<close>

definition few_words_env :: env where
  "few_words_env =
     quiet_env\<lparr>page_content := (\<lambda>n. Inr few_words_html),
               html_parser := (\<lambda>c. if c = few_words_html then Inr few_words_soup
                                    else Inr words_soup)\<rparr>"

text \<open>Every page is the page of scripts; every page is the page with the gap.\<close>

definition scripts_env :: env where
  "scripts_env =
     quiet_env\<lparr>page_source := (\<lambda>n. Inr scripts_html),
               page_content := (\<lambda>n. Inr scripts_html),
               html_parser := (\<lambda>c. Inr scripts_soup)\<rparr>"

definition gap_env :: env where
  "gap_env =
     quiet_env\<lparr>page_source := (\<lambda>n. Inr gap_html),
               page_content := (\<lambda>n. Inr gap_html),
               html_parser := (\<lambda>c. Inr gap_soup)\<rparr>"

text \<open>The language model answers \<^verbatim>\<open>5\<close>, which is JSON and no object.\<close>

definition number_env :: env where
  "number_env =
     quiet_env\<lparr>completion := (\<lambda>text u. Inr ''5''),
               json_loads := (\<lambda>r. if r = ''5'' then Inr (JInt 5)
                                   else Inl (JSONDecodeError ''Expecting value''))\<rparr>"

text \<open>
  The language model answers with an object that has "text" and "metadata", the metadata
  being a title only:
  \<^verbatim>\<open>{"text": "Ports of the Baltic", "metadata": {"title": "Ports of the Baltic"}}\<close>;
  and with one that has an "error" beside them:
  \<^verbatim>\<open>{"text": "Ports of the Baltic", "metadata": {}, "error": "the page looks truncated"}\<close>.
\<close>

definition quoted :: "string \<Rightarrow> string" where
  "quoted s = CHR 0x22 # s @ [CHR 0x22]"

definition title_only_reply :: string where
  "title_only_reply =
     ''{'' @ quoted ''text'' @ '': '' @ quoted ''Ports of the Baltic'' @ '', ''
       @ quoted ''metadata'' @ '': {'' @ quoted ''title'' @ '': ''
       @ quoted ''Ports of the Baltic'' @ ''}}''"

definition title_only :: json where
  "title_only =
     JDict [(''text'', JStr ''Ports of the Baltic''),
            (''metadata'', JDict [(''title'', JStr ''Ports of the Baltic'')])]"

definition title_only_env :: env where
  "title_only_env =
     quiet_env\<lparr>completion := (\<lambda>text u. Inr title_only_reply),
               json_loads := (\<lambda>r. if r = title_only_reply then Inr title_only
                                   else Inl (JSONDecodeError ''Expecting value''))\<rparr>"

definition text_and_error_reply :: string where
  "text_and_error_reply =
     ''{'' @ quoted ''text'' @ '': '' @ quoted ''Ports of the Baltic'' @ '', ''
       @ quoted ''metadata'' @ '': {}, '' @ quoted ''error'' @ '': ''
       @ quoted ''the page looks truncated'' @ ''}''"

definition text_and_error :: json where
  "text_and_error =
     JDict [(''text'', JStr ''Ports of the Baltic''),
            (''metadata'', JDict []),
            (''error'', JStr ''the page looks truncated'')]"

definition text_and_error_env :: env where
  "text_and_error_env =
     quiet_env\<lparr>completion := (\<lambda>text u. Inr text_and_error_reply),
               json_loads := (\<lambda>r. if r = text_and_error_reply then Inr text_and_error
                                   else Inl (JSONDecodeError ''Expecting value''))\<rparr>"

text \<open>A provider that returns one embedding of three components, and a store that returns one id.\<close>

definition quiet_route_env :: "int route_env" where
  "quiet_route_env =
     \<lparr>embeddings_create = (\<lambda>text. Inr [[1, 2, 3]]),
      store_documents = (\<lambda>docs embs. Inr [''id-1''])\<rparr>"

section \<open>Splitting and joining\<close>

lemma py_isspace_space [simp]: "py_isspace CHR '' ''"
  by (simp add: py_isspace_def)

lemma split_ws_Nil [simp]: "split_ws [] = []"
  by (simp add: split_ws.simps)

lemma split_ws_space: "py_isspace c \<Longrightarrow> split_ws (c # cs) = split_ws cs"
  by (simp add: split_ws.simps [of "c # cs"] split_ws.simps [of cs])

lemma split_ws_word:
  "\<not> py_isspace c \<Longrightarrow>
     split_ws (c # cs) = (c # takeWhile not_space cs) # split_ws (dropWhile not_space cs)"
  by (simp add: split_ws.simps [of "c # cs"])

lemma split_ws_dropWhile: "split_ws (dropWhile py_isspace s) = split_ws s"
  by (induction s) (simp_all add: split_ws_space)

lemma collapse_runs_word: "\<not> py_isspace c \<Longrightarrow> collapse_runs (c # cs) = c # collapse_runs cs"
  by (cases cs) simp_all

lemma collapse_runs_space:
  "py_isspace c \<Longrightarrow> collapse_runs (c # cs) = CHR '' '' # collapse_runs (dropWhile py_isspace cs)"
  by (induction cs arbitrary: c) simp_all

lemma collapse_runs_takeWhile:
  "collapse_runs s = takeWhile not_space s @ collapse_runs (dropWhile not_space s)"
  by (induction s) (simp_all add: collapse_runs_word)

lemma filter_join:
  "filter P sep = [] \<Longrightarrow> filter P (join sep xs) = concat (map (filter P) xs)"
  by (induction sep xs rule: join.induct) simp_all

lemma filter_takeWhile_id: "filter P (takeWhile P xs) = takeWhile P xs"
  by (induction xs) simp_all

lemma last_dropWhile_id: "dropWhile P xs \<noteq> [] \<Longrightarrow> last (dropWhile P xs) = last xs"
proof (induction xs)
  case Nil
  then show ?case by simp
next
  case (Cons a xs)
  show ?case
  proof (cases "P a")
    case True
    with Cons.prems have ne: "dropWhile P xs \<noteq> []" by simp
    then have "xs \<noteq> []" by (cases xs) simp_all
    with True Cons.IH ne show ?thesis by simp
  next
    case False
    then show ?thesis by simp
  qed
qed

lemma filter_split_ws: "concat (map (filter not_space) (split_ws s)) = filter not_space s"
proof (induction s rule: length_induct)
  case (1 s)
  show ?case
  proof (cases s)
    case Nil
    then show ?thesis by simp
  next
    case (Cons c cs)
    show ?thesis
    proof (cases "py_isspace c")
      case True
      with 1 Cons show ?thesis by (simp add: split_ws_space)
    next
      case False
      have "length (dropWhile not_space cs) \<le> length cs" by (rule length_dropWhile_le)
      then have len: "length (dropWhile not_space cs) < length s"
        using Cons by simp
      have ih: "concat (map (filter not_space) (split_ws (dropWhile not_space cs)))
                = filter not_space (dropWhile not_space cs)"
        using 1 len by blast
      have "filter not_space cs =
            filter not_space (takeWhile not_space cs @ dropWhile not_space cs)"
        by simp
      also have "\<dots> = takeWhile not_space cs @ filter not_space (dropWhile not_space cs)"
        by (simp only: filter_append filter_takeWhile_id)
      finally have fc: "filter not_space cs =
            takeWhile not_space cs @ filter not_space (dropWhile not_space cs)" .
      show ?thesis
        using False Cons ih fc by (simp add: split_ws_word filter_takeWhile_id)
    qed
  qed
qed

lemma filter_join_split: "filter not_space (join '' '' (split_ws s)) = filter not_space s"
  by (simp add: filter_join filter_split_ws)

lemma length_join_split_aux:
  "length (join '' '' (split_ws s)) + length (takeWhile py_isspace s) \<le> length s"
proof (induction s rule: length_induct)
  case (1 s)
  show ?case
  proof (cases s)
    case Nil
    then show ?thesis by simp
  next
    case (Cons c cs)
    show ?thesis
    proof (cases "py_isspace c")
      case True
      have "length (join '' '' (split_ws cs)) + length (takeWhile py_isspace cs) \<le> length cs"
        using 1 Cons by simp
      with True Cons show ?thesis by (simp add: split_ws_space)
    next
      case False
      let ?w = "takeWhile not_space cs" and ?r = "dropWhile not_space cs"
      have "length ?r \<le> length cs" by (rule length_dropWhile_le)
      then have len: "length ?r < length s" using Cons by simp
      have ih: "length (join '' '' (split_ws ?r)) + length (takeWhile py_isspace ?r) \<le> length ?r"
        using 1 len by blast
      have tot: "length ?w + length ?r = length cs"
        using arg_cong [OF takeWhile_dropWhile_id [of not_space cs], of length]
        by (simp only: length_append)
      show ?thesis
      proof (cases "split_ws ?r")
        case Nil
        with False \<open>s = c # cs\<close> tot show ?thesis by (simp add: split_ws_word)
      next
        case sw: (Cons x xs)
        have "?r \<noteq> []"
        proof
          assume "?r = []"
          then have "split_ws ?r = []" by (simp only: split_ws_Nil)
          with sw show False by simp
        qed
        then obtain d ds where r: "?r = d # ds" by (cases ?r) auto
        then have "py_isspace d" using dropWhile_eq_Cons_conv [of not_space cs d ds] by simp
        then have "1 \<le> length (takeWhile py_isspace ?r)" using r by simp
        with ih have "length (join '' '' (split_ws ?r)) + 1 \<le> length ?r" by linarith
        with False \<open>s = c # cs\<close> tot sw show ?thesis by (simp add: split_ws_word)
      qed
    qed
  qed
qed

lemma length_join_split: "length (join '' '' (split_ws s)) \<le> length s"
  using length_join_split_aux [of s] by linarith

lemma join_split_collapse:
  assumes "s \<noteq> [] \<longrightarrow> \<not> py_isspace (hd s) \<and> \<not> py_isspace (last s)"
  shows "join '' '' (split_ws s) = collapse_runs s"
  using assms
proof (induction s rule: length_induct)
  case (1 s)
  show ?case
  proof (cases s)
    case Nil
    then show ?thesis by simp
  next
    case (Cons c cs)
    with "1.prems" have c: "\<not> py_isspace c" and l: "\<not> py_isspace (last s)" by simp_all
    let ?w = "takeWhile not_space cs" and ?r = "dropWhile not_space cs"
    have cr: "collapse_runs s = c # ?w @ collapse_runs ?r"
      using Cons c collapse_runs_takeWhile [of cs] by (simp add: collapse_runs_word)
    show ?thesis
    proof (cases ?r)
      case Nil
      then have a: "split_ws ?r = []" and b: "collapse_runs ?r = []"
        by (simp_all only: split_ws_Nil collapse_runs.simps)
      have "split_ws s = [c # ?w]" using Cons c a by (simp add: split_ws_word)
      with cr b show ?thesis by simp
    next
      case r: (Cons d ds)
      then have d: "py_isspace d" using dropWhile_eq_Cons_conv [of not_space cs d ds] by simp
      let ?r' = "dropWhile py_isspace ds"
      have rr: "dropWhile py_isspace ?r = ?r'" using r d by simp
      have "last ?r = last cs" using r last_dropWhile_id [of not_space cs] by simp
      moreover have "cs \<noteq> []" using r by auto
      ultimately have lastr: "last s = last ?r" using Cons by simp
      have ne: "?r' \<noteq> []"
      proof
        assume "?r' = []"
        then have "\<forall>x\<in>set ds. py_isspace x" by simp
        with d r have "\<forall>x\<in>set ?r. py_isspace x" by simp
        moreover have "last ?r \<in> set ?r" using r by simp
        ultimately have "py_isspace (last ?r)" by blast
        moreover from l have "\<not> py_isspace (last ?r)" unfolding lastr .
        ultimately show False by blast
      qed
      then obtain e es where r': "?r' = e # es" by (cases ?r') auto
      then have e: "\<not> py_isspace e" using dropWhile_eq_Cons_conv [of py_isspace ds e es] by simp
      have "last ?r' = last ?r"
        using ne rr last_dropWhile_id [of py_isspace ?r] by simp
      with lastr l have l': "\<not> py_isspace (last ?r')" by simp
      have "length ?r' \<le> length ds" by (rule length_dropWhile_le)
      moreover have "length ?r \<le> length cs" by (rule length_dropWhile_le)
      ultimately have "length ?r' < length s" using r Cons by simp
      moreover have "?r' \<noteq> [] \<longrightarrow> \<not> py_isspace (hd ?r') \<and> \<not> py_isspace (last ?r')"
        using e l' r' by simp
      ultimately have ih: "join '' '' (split_ws ?r') = collapse_runs ?r'" using "1.IH" by blast
      have sp: "split_ws ?r = split_ws ?r'" using rr split_ws_dropWhile [of ?r] by simp
      obtain x xs where x: "split_ws ?r' = x # xs" using r' e by (simp add: split_ws_word)
      have "join '' '' (split_ws s) = c # ?w @ '' '' @ join '' '' (split_ws ?r')"
        using Cons c sp x by (simp add: split_ws_word)
      also have "\<dots> = c # ?w @ collapse_runs ?r"
        using ih r d by (simp add: collapse_runs_space)
      finally show ?thesis using cr by simp
    qed
  qed
qed

lemma strip_ends:
  assumes "strip s \<noteq> []"
  shows "\<not> py_isspace (hd (strip s))" and "\<not> py_isspace (last (strip s))"
proof -
  let ?t = "dropWhile py_isspace s"
  let ?u = "dropWhile py_isspace (rev ?t)"
  have u: "?u \<noteq> []" using assms unfolding strip_def rev_is_Nil_conv .
  have t: "?t \<noteq> []"
  proof
    assume "?t = []"
    then have "?u = []" by (simp only: rev.simps dropWhile.simps)
    with u show False by blast
  qed
  have "hd (strip s) = last ?u" by (simp only: strip_def hd_rev)
  also have "\<dots> = last (rev ?t)" using u by (rule last_dropWhile_id)
  also have "\<dots> = hd ?t" by (simp only: last_rev)
  finally show "\<not> py_isspace (hd (strip s))" using hd_dropWhile [OF t] by simp
  have "last (strip s) = hd ?u" by (simp only: strip_def last_rev)
  then show "\<not> py_isspace (last (strip s))" using hd_dropWhile [OF u] by simp
qed

lemma join_ends:
  assumes "\<forall>p\<in>set ps. p \<noteq> [] \<and> \<not> py_isspace (hd p) \<and> \<not> py_isspace (last p)"
  shows "join '' '' ps \<noteq> [] \<longrightarrow>
         \<not> py_isspace (hd (join '' '' ps)) \<and> \<not> py_isspace (last (join '' '' ps))"
  using assms
proof (induction "'' ''" ps rule: join.induct)
  case 1
  then show ?case by simp
next
  case (2 x)
  then show ?case by simp
next
  case (3 x y ys)
  have y: "join '' '' (y # ys) \<noteq> []" using 3 by (cases ys) simp_all
  with 3 show ?case by simp
qed

lemma get_text_ends:
  "get_text soup \<noteq> [] \<longrightarrow>
     \<not> py_isspace (hd (get_text soup)) \<and> \<not> py_isspace (last (get_text soup))"
  unfolding get_text_def
  by (rule join_ends) (auto simp: strip_ends)

lemma clean_text_collapse: "join '' '' (split_ws (get_text soup)) = collapse_runs (get_text soup)"
  by (rule join_split_collapse) (rule get_text_ends)

section \<open>Pages without text\<close>

lemma no_other_text_strings:
  "no_other_text n \<Longrightarrow> \<forall>m\<in>set (decompose unwanted n). \<forall>s\<in>set (all_strings m). strip s = []"
proof (induction n)
  case (Text s)
  then show ?case by simp
next
  case (Comment s)
  then show ?case by simp
next
  case (Tag t cs)
  show ?case
  proof (cases "t \<in> set unwanted")
    case True
    then show ?thesis by simp
  next
    case False
    then have "t \<notin> set [''script'', ''style'', ''nav'']" by (auto simp: unwanted_def)
    with Tag.prems have "list_all no_other_text cs" by simp
    with Tag.IH have "\<forall>c\<in>set cs. \<forall>m\<in>set (decompose unwanted c). \<forall>s\<in>set (all_strings m). strip s = []"
      by (simp add: list_all_iff)
    with False show ?thesis by auto
  qed
qed

lemma no_other_text_visible:
  assumes "list_all no_other_text soup"
  shows "visible_text soup = []"
proof -
  let ?strs = "concat (map all_strings (decompose_all soup))"
  have "\<forall>s\<in>set ?strs. strip s = []"
    using assms no_other_text_strings by (fastforce simp: decompose_all_def list_all_iff)
  then have "filter (\<lambda>s. s \<noteq> []) (map strip ?strs) = []"
    by (simp add: filter_empty_conv)
  then show ?thesis by (simp add: visible_text_def get_text_def)
qed


section \<open>The content extractor\<close>

lemma clean_text_eq:
  "clean_text soup =
     (if length (collapse_runs (visible_text soup)) < 200 then []
      else collapse_runs (visible_text soup))"
  by (simp add: clean_text_def visible_text_def clean_text_collapse Let_def)

lemma collapse_runs_le: "length (collapse_runs (visible_text soup)) \<le> length (visible_text soup)"
  using length_join_split [of "get_text (decompose_all soup)"]
  by (simp add: visible_text_def clean_text_collapse)

lemma filter_collapse_visible:
  "filter not_space (collapse_runs (visible_text soup)) = filter not_space (visible_text soup)"
  using filter_join_split [of "get_text (decompose_all soup)"]
  by (simp add: visible_text_def clean_text_collapse)

lemma extract_main_content_page:
  "page_content env n = Inr html \<Longrightarrow> html_parser env html = Inr soup \<Longrightarrow>
     extract_main_content env n = clean_text soup"
  by (simp add: extract_main_content_def)

text \<open>
  Claim C5, as the code has it. When the page is read and parsed, and the visible text
  (what is left after the style, script, header, footer, nav and aside elements are
  removed) has at least 200 characters once its whitespace is collapsed, then
  \<^verbatim>\<open>extract_main_content\<close> returns exactly the visible text with every run of whitespace
  replaced by one space; the characters that are not whitespace are those of the visible
  text, in the same order.
\<close>

theorem extract_collapsed:
  assumes "page_content env n = Inr html"
    and "html_parser env html = Inr soup"
    and "200 \<le> length (collapse_runs (visible_text soup))"
  shows "extract_main_content env n = collapse_runs (visible_text soup) \<and>
         filter not_space (extract_main_content env n) = filter not_space (visible_text soup)"
  using assms by (simp add: extract_main_content_page clean_text_eq filter_collapse_visible)

text \<open>Facts about the sample pages, evaluated once.\<close>

lemma words_collapsed: "collapse_runs (visible_text words_soup) = join '' '' (replicate 60 ''word'')"
  by code_simp

lemma words_length: "length (join '' '' (replicate 60 ''word'')) = 299"
  by code_simp

lemma words_clean: "clean_text words_soup = join '' '' (replicate 60 ''word'')"
  by (simp add: clean_text_eq words_collapsed words_length)

lemma words_nonempty: "join '' '' (replicate 60 ''word'') \<noteq> []"
  using words_length by auto

lemma words_get_text: "\<not> length (get_text words_soup) < 200"
  by code_simp

lemma few_words_clean: "clean_text few_words_soup = []"
  by code_simp

lemma html_distinct: "words_html \<noteq> few_words_html"
  by code_simp

lemma strip_title_only_reply: "strip title_only_reply = title_only_reply"
  by code_simp

lemma strip_text_and_error_reply: "strip text_and_error_reply = text_and_error_reply"
  by code_simp

theorem extract_collapsed_witness:
  "200 \<le> length (collapse_runs (visible_text words_soup)) \<and>
   extract_main_content quiet_env 0 = join '' '' (replicate 60 ''word'')"
proof -
  have h1: "page_content quiet_env 0 = Inr words_html"
    by (simp add: quiet_env_def)
  have h2: "html_parser quiet_env words_html = Inr words_soup"
    by (simp add: quiet_env_def)
  have h3: "200 \<le> length (collapse_runs (visible_text words_soup))"
    by (simp add: words_collapsed words_length)
  from extract_collapsed [OF h1 h2 h3] h3 show ?thesis
    by (simp only: words_collapsed simp_thms)
qed

text \<open>
  The threshold is applied after the whitespace is collapsed: a visible text of 252
  characters, two letters with 250 spaces between them, gives the empty string.
\<close>

theorem extract_gap_counterexample:
  "200 \<le> length (visible_text gap_soup) \<and>
   page_content gap_env 0 = Inr gap_html \<and>
   html_parser gap_env gap_html = Inr gap_soup \<and>
   extract_main_content gap_env 0 = [] \<and>
   collapse_runs (visible_text gap_soup) = ''a b''"
  by code_simp

text \<open>
  Claim C6. When the page is read and parsed and its visible text after the removal has
  fewer than 200 characters (before or after the whitespace is collapsed),
  \<^verbatim>\<open>extract_main_content\<close> returns the empty string; so it does on every page whose text
  lies in script, style and nav elements only.
\<close>

theorem extract_short:
  assumes "page_content env n = Inr html"
    and "html_parser env html = Inr soup"
  shows "(length (visible_text soup) < 200 \<longrightarrow> extract_main_content env n = []) \<and>
         (length (collapse_runs (visible_text soup)) < 200 \<longrightarrow> extract_main_content env n = []) \<and>
         (list_all no_other_text soup \<longrightarrow> extract_main_content env n = [])"
  using assms collapse_runs_le [of soup]
  by (auto simp: extract_main_content_page clean_text_eq no_other_text_visible)

theorem extract_short_witness:
  "length (visible_text few_words_soup) < 200 \<and> extract_main_content few_words_env 0 = [] \<and>
   list_all no_other_text scripts_soup \<and> extract_main_content scripts_env 0 = []"
proof -
  have h1: "page_content few_words_env 0 = Inr few_words_html"
    by (simp add: few_words_env_def quiet_env_def)
  have h2: "html_parser few_words_env few_words_html = Inr few_words_soup"
    by (simp add: few_words_env_def quiet_env_def)
  have h3: "length (visible_text few_words_soup) < 200" by code_simp
  have k1: "page_content scripts_env 0 = Inr scripts_html"
    by (simp add: scripts_env_def quiet_env_def)
  have k2: "html_parser scripts_env scripts_html = Inr scripts_soup"
    by (simp add: scripts_env_def quiet_env_def)
  have k3: "list_all no_other_text scripts_soup" by code_simp
  from extract_short [OF h1 h2] extract_short [OF k1 k2] h3 k3 show ?thesis by blast
qed

section \<open>The retry loop\<close>

lemma browser_log [simp]: "browser (log ev s) = browser s"
  by (simp add: log_def)

lemma events_log [simp]: "events (log ev s) = events s @ [ev]"
  by (simp add: log_def)

lemma scrape_loop_0:
  "scrape_loop env url 0 s =
     (case attempt_body env url 0 s of
        (Inr r, s1) \<Rightarrow> (Inr r, s1)
      | (Inl e, s1) \<Rightarrow>
          (case on_failure env 0 s1 of
             (Some q, s2) \<Rightarrow> (Inl q, s2)
           | (None, s2) \<Rightarrow> scrape_loop env url 1 s2))"
  by (subst scrape_loop.simps)
    (simp add: retry_count_def split: prod.splits sum.splits option.splits)

lemma scrape_loop_1:
  "scrape_loop env url (Suc 0) s =
     (case attempt_body env url (Suc 0) s of
        (Inr r, s1) \<Rightarrow> (Inr r, s1)
      | (Inl e, s1) \<Rightarrow>
          (case on_failure env (Suc 0) s1 of
             (Some q, s2) \<Rightarrow> (Inl q, s2)
           | (None, s2) \<Rightarrow> (Inr (error_result e), s2)))"
  by (subst scrape_loop.simps)
    (simp add: retry_count_def split: prod.splits sum.splits option.splits)

lemma scrape_url_first_return:
  "attempt_body env url 0 s = (Inr r, s') \<Longrightarrow> scrape_url env url s = (Inr r, s')"
  by (simp add: scrape_url_def scrape_loop_0)

lemma scrape_url_second:
  assumes "attempt_body env url 0 s = (Inl e0, s1)"
    and "on_failure env 0 s1 = (None, s1')"
  shows "scrape_url env url s =
     (case attempt_body env url 1 s1' of
        (Inr r, s2) \<Rightarrow> (Inr r, s2)
      | (Inl e1, s2) \<Rightarrow>
          (case on_failure env 1 s2 of
             (Some q, s3) \<Rightarrow> (Inr (error_result q), s3)
           | (None, s3) \<Rightarrow> (Inr (error_result e1), s3)))"
proof -
  have "scrape_loop env url 0 s = scrape_loop env url (Suc 0) s1'"
    using assms by (simp add: scrape_loop_0)
  then show ?thesis
    by (simp add: scrape_url_def scrape_loop_1 split: prod.splits sum.splits option.splits)
qed

lemma scrape_url_returns: "\<exists>r. fst (scrape_url env url s) = Inr r"
  by (simp add: scrape_url_def split: prod.splits sum.splits)

lemma attempt_launch_failure:
  "browser s = None \<Longrightarrow> launch env 0 = Some e \<Longrightarrow> attempt_body env url 0 s = (Inl e, s)"
  by (simp add: attempt_body_def initialize_pyppeteer_def)

lemma on_failure_no_chrome: "browser s \<noteq> Some Chrome \<Longrightarrow> on_failure env n s = (None, s)"
  by (simp add: on_failure_def)

lemma attempt_selenium:
  "browser s = None \<Longrightarrow> n \<noteq> 0 \<Longrightarrow>
     attempt_body env url n s =
       (case chrome env n of
          Some e' \<Rightarrow> (Inl e', s)
        | None \<Rightarrow> selenium_scrape env url n (log (EvLaunch Chrome) (s\<lparr>browser := Some Chrome\<rparr>)))"
  by (simp add: attempt_body_def initialize_selenium_def split: option.splits)

lemma fallback_on_decode_error:
  "completion env text url = Inr reply \<Longrightarrow>
   json_loads env (strip reply) = Inl (JSONDecodeError m) \<Longrightarrow>
   process_with_llm env text url = default_result env text url"
  by (simp add: process_with_llm_def parse_result_def)

lemma fallback_on_missing_key:
  assumes "completion env text url = Inr reply"
    and "json_loads env (strip reply) = Inr (JDict kvs)"
    and "''text'' \<notin> set (map fst kvs) \<or> ''metadata'' \<notin> set (map fst kvs)"
  shows "process_with_llm env text url = default_result env text url"
  using assms by (auto simp: process_with_llm_def parse_result_def split: bool.splits)

lemmas run_defs =
  scrape_url_def scrape_loop_0 scrape_loop_1 attempt_body_def initialize_pyppeteer_def
  initialize_selenium_def pyppeteer_scrape_def selenium_scrape_def on_failure_def log_def
  init_scraper_def extract_main_content_def process_with_llm_def parse_result_def Let_def

text \<open>
  Claim C1, as the code has it. A back end is chosen by the attempt index only when no
  session exists. When the scraper has no session and the launch of Pyppeteer raises on
  the first attempt, the second attempt opens Selenium and scrapes with it; the call then
  returns what that one attempt returns, so when Selenium succeeds the result (and the
  scraper left behind) is that of the Selenium attempt made alone.
\<close>

theorem fallback_after_launch_failure:
  assumes "browser s = None" and "launch env 0 = Some e"
  shows "attempt_body env url 1 s =
           (case chrome env 1 of
              Some e' \<Rightarrow> (Inl e', s)
            | None \<Rightarrow> selenium_scrape env url 1 (log (EvLaunch Chrome) (s\<lparr>browser := Some Chrome\<rparr>))) \<and>
         scrape_url env url s =
           (case attempt_body env url 1 s of
              (Inr r, s2) \<Rightarrow> (Inr r, s2)
            | (Inl e1, s2) \<Rightarrow>
                (case on_failure env 1 s2 of
                   (Some q, s3) \<Rightarrow> (Inr (error_result q), s3)
                 | (None, s3) \<Rightarrow> (Inr (error_result e1), s3))) \<and>
         (\<forall>r s'. attempt_body env url 1 s = (Inr r, s') \<longrightarrow> scrape_url env url s = (Inr r, s'))"
proof -
  have a0: "attempt_body env url 0 s = (Inl e, s)"
    using assms by (rule attempt_launch_failure)
  have h0: "on_failure env 0 s = (None, s)"
    using assms(1) by (simp add: on_failure_no_chrome)
  have eq: "scrape_url env url s =
           (case attempt_body env url 1 s of
              (Inr r, s2) \<Rightarrow> (Inr r, s2)
            | (Inl e1, s2) \<Rightarrow>
                (case on_failure env 1 s2 of
                   (Some q, s3) \<Rightarrow> (Inr (error_result q), s3)
                 | (None, s3) \<Rightarrow> (Inr (error_result e1), s3)))"
    by (rule scrape_url_second [OF a0 h0])
  have tr: "\<forall>r s'. attempt_body env url 1 s = (Inr r, s') \<longrightarrow> scrape_url env url s = (Inr r, s')"
    by (simp add: eq)
  have sel: "attempt_body env url 1 s =
           (case chrome env 1 of
              Some e' \<Rightarrow> (Inl e', s)
            | None \<Rightarrow> selenium_scrape env url 1 (log (EvLaunch Chrome) (s\<lparr>browser := Some Chrome\<rparr>)))"
    by (rule attempt_selenium [OF assms(1)]) simp
  show ?thesis by (rule conjI [OF sel conjI [OF eq tr]])
qed

theorem fallback_after_launch_failure_witness:
  "scrape_url launch_fail_env ''https://example.org'' init_scraper =
     (Inr (default_result launch_fail_env words_html ''https://example.org''),
      \<lparr>browser = Some Chrome,
       events = [EvLaunch Chrome, EvGet ''https://example.org'', EvPageSource]\<rparr>)"
proof -
  have b: "browser init_scraper = None" by (simp add: init_scraper_def)
  have l: "launch launch_fail_env 0 = Some (Exception ''Browser closed unexpectedly'')"
    by (simp add: launch_fail_env_def quiet_env_def)
  have a1: "attempt_body launch_fail_env ''https://example.org'' 1 init_scraper =
     (Inr (default_result launch_fail_env words_html ''https://example.org''),
      \<lparr>browser = Some Chrome,
       events = [EvLaunch Chrome, EvGet ''https://example.org'', EvPageSource]\<rparr>)"
    by (simp add: run_defs launch_fail_env_def quiet_env_def words_get_text)
  from fallback_after_launch_failure [OF b l, of "''https://example.org''"] a1
  show ?thesis by blast
qed

text \<open>
  When Pyppeteer has launched and its navigation raises, the session stays in
  \<^verbatim>\<open>self.browser\<close>, so the second attempt opens nothing and navigates with Pyppeteer again:
  Selenium is neither launched nor used.
\<close>

theorem navigation_failure_counterexample:
  "browser init_scraper = None \<and>
   launch nav_fail_env 0 = None \<and>
   goto nav_fail_env 0 ''https://example.org'' = Some (Exception ''Navigation Timeout Exceeded'') \<and>
   scrape_url nav_fail_env ''https://example.org'' init_scraper =
     (Inr (default_result nav_fail_env (join '' '' (replicate 60 ''word'')) ''https://example.org''),
      \<lparr>browser = Some Pyppeteer,
       events = [EvLaunch Pyppeteer, EvNewPage, EvGoto ''https://example.org'',
                 EvNewPage, EvGoto ''https://example.org'', EvContent, EvPageClose]\<rparr>)"
  by (simp add: run_defs nav_fail_env_def quiet_env_def words_clean words_nonempty)

text \<open>
  Claim C2, as the code has it. When the first attempt (no session yet, Pyppeteer launches
  and navigates) extracts empty content, \<^verbatim>\<open>scrape_url\<close> returns the error "No content
  extracted" at once: the events of the call are those of the first attempt, no second
  attempt is made and no other back end is opened.
\<close>

theorem no_retry_on_empty_content:
  assumes "browser s = None"
    and "launch env 0 = None"
    and "newPage env 0 = None"
    and "goto env 0 url = None"
    and "extract_main_content env 0 = []"
  shows "scrape_url env url s =
           (Inr (JDict [(''error'', JStr ''No content extracted'')]),
            s\<lparr>browser := Some Pyppeteer,
              events := events s @ [EvLaunch Pyppeteer, EvNewPage, EvGoto url, EvContent]\<rparr>)"
proof -
  have "attempt_body env url 0 s =
           (Inr no_content,
            s\<lparr>browser := Some Pyppeteer,
              events := events s @ [EvLaunch Pyppeteer, EvNewPage, EvGoto url, EvContent]\<rparr>)"
    using assms
    by (simp add: attempt_body_def initialize_pyppeteer_def pyppeteer_scrape_def log_def)
  then show ?thesis by (simp add: scrape_url_first_return no_content_def)
qed

theorem no_retry_on_empty_content_witness:
  "scrape_url few_words_env ''https://example.org'' init_scraper =
     (Inr (JDict [(''error'', JStr ''No content extracted'')]),
      \<lparr>browser = Some Pyppeteer,
       events = [EvLaunch Pyppeteer, EvNewPage, EvGoto ''https://example.org'', EvContent]\<rparr>)"
proof -
  have h1: "browser init_scraper = None" by (simp add: init_scraper_def)
  have h2: "launch few_words_env 0 = None" by (simp add: few_words_env_def quiet_env_def)
  have h3: "newPage few_words_env 0 = None" by (simp add: few_words_env_def quiet_env_def)
  have h4: "goto few_words_env 0 ''https://example.org'' = None"
    by (simp add: few_words_env_def quiet_env_def)
  have h5: "extract_main_content few_words_env 0 = []"
    by (simp add: extract_main_content_def few_words_env_def quiet_env_def few_words_clean)
  from no_retry_on_empty_content [OF h1 h2 h3 h4 h5] show ?thesis
    by (simp add: init_scraper_def)
qed

text \<open>
  The ten-word page on the first attempt: the call returns the error without launching
  Selenium, although Selenium would have read the sixty-word page.
\<close>

theorem empty_content_counterexample:
  "extract_main_content few_words_env 0 = [] \<and>
   fst (scrape_url few_words_env ''https://example.org'' init_scraper) = Inr no_content \<and>
   EvLaunch Chrome \<notin> set (events (snd (scrape_url few_words_env ''https://example.org'' init_scraper))) \<and>
   EvGet ''https://example.org''
     \<notin> set (events (snd (scrape_url few_words_env ''https://example.org'' init_scraper))) \<and>
   fst (selenium_scrape few_words_env ''https://example.org'' 1
         (log (EvLaunch Chrome) (init_scraper\<lparr>browser := Some Chrome\<rparr>)))
     = Inr (default_result few_words_env words_html ''https://example.org'')"
  by (simp add: run_defs few_words_env_def quiet_env_def few_words_clean words_get_text
      html_distinct)

section \<open>Sessions\<close>

lemma session_open_quit [simp]: "session_open (evs @ [EvQuit]) = False"
  by (simp add: session_open_def)

lemma session_open_close [simp]: "session_open (evs @ [EvClose]) = False"
  by (simp add: session_open_def)

lemma browser_selenium_scrape: "browser (snd (selenium_scrape env url n s)) = browser s"
  by (simp add: selenium_scrape_def Let_def split: option.splits sum.splits)

lemma browser_pyppeteer_scrape: "browser (snd (pyppeteer_scrape env url n s)) = browser s"
  by (simp add: pyppeteer_scrape_def Let_def split: option.splits sum.splits)

lemma attempt_body_no_browser:
  assumes "browser (snd (attempt_body env url n s)) = None"
  shows "snd (attempt_body env url n s) = s"
proof (cases "browser s")
  case None
  show ?thesis
  proof (cases "n = 0")
    case True
    show ?thesis
    proof (cases "launch env n")
      case l: None
      have "browser (snd (attempt_body env url n s)) = Some Pyppeteer"
        using None True l
        by (simp add: attempt_body_def initialize_pyppeteer_def browser_pyppeteer_scrape)
      with assms show ?thesis by simp
    next
      case (Some e)
      with None True show ?thesis by (simp add: attempt_body_def initialize_pyppeteer_def)
    qed
  next
    case False
    show ?thesis
    proof (cases "chrome env n")
      case l: None
      have "browser (snd (attempt_body env url n s)) = Some Chrome"
        using None False l
        by (simp add: attempt_body_def initialize_selenium_def browser_selenium_scrape)
      with assms show ?thesis by simp
    next
      case (Some e)
      with None False show ?thesis by (simp add: attempt_body_def initialize_selenium_def)
    qed
  qed
next
  case (Some b)
  then have "browser (snd (attempt_body env url n s)) = Some b"
    by (simp add: attempt_body_def browser_selenium_scrape browser_pyppeteer_scrape)
  with assms show ?thesis by simp
qed

lemma on_failure_no_browser:
  "browser (snd (on_failure env n s)) = None \<Longrightarrow> snd (on_failure env n s) = s"
  by (simp add: on_failure_def split: if_splits)

lemma scrape_loop_no_browser:
  "browser (snd (scrape_loop env url n s)) = None \<Longrightarrow> snd (scrape_loop env url n s) = s"
proof (induction env url n s rule: scrape_loop.induct)
  case (1 env url attempt s)
  show ?case
  proof (cases "attempt < retry_count")
    case False
    then show ?thesis by (subst scrape_loop.simps) simp
  next
    case True
    obtain x s1 where a: "attempt_body env url attempt s = (x, s1)"
      by (cases "attempt_body env url attempt s")
    show ?thesis
    proof (cases x)
      case (Inr r)
      with a True have eq: "scrape_loop env url attempt s = (Inr r, s1)"
        by (subst scrape_loop.simps) simp
      with "1.prems" have "browser s1 = None" by simp
      with a attempt_body_no_browser [of env url attempt s] have "s1 = s" by simp
      with eq show ?thesis by simp
    next
      case (Inl e)
      obtain q s2 where h: "on_failure env attempt s1 = (q, s2)"
        by (cases "on_failure env attempt s1")
      have same: "browser s2 = None \<Longrightarrow> s2 = s"
      proof -
        assume b2: "browser s2 = None"
        with h on_failure_no_browser [of env attempt s1] have "s2 = s1" by simp
        with b2 a attempt_body_no_browser [of env url attempt s] show "s2 = s" by simp
      qed
      show ?thesis
      proof (cases q)
        case (Some qe)
        with a h Inl True have eq: "scrape_loop env url attempt s = (Inl qe, s2)"
          by (subst scrape_loop.simps) simp
        with "1.prems" same show ?thesis by simp
      next
        case None
        show ?thesis
        proof (cases "attempt + 1 = retry_count")
          case last: True
          with a h Inl True None
          have eq: "scrape_loop env url attempt s = (Inr (error_result e), s2)"
            by (subst scrape_loop.simps) simp
          with "1.prems" same show ?thesis by simp
        next
          case more: False
          with a h Inl True None
          have eq: "scrape_loop env url attempt s = scrape_loop env url (attempt + 1) s2"
            by (subst scrape_loop.simps) simp
          with "1.prems" have b: "browser (snd (scrape_loop env url (attempt + 1) s2)) = None"
            by simp
          have "snd (scrape_loop env url (attempt + 1) s2) = s2"
            using "1.IH" [OF True a [symmetric] Inl h [symmetric] None more b] by simp
          with b same eq show ?thesis by simp
        qed
      qed
    qed
  qed
qed

lemma scrape_url_no_browser:
  "browser (snd (scrape_url env url s)) = None \<Longrightarrow> snd (scrape_url env url s) = s"
  using scrape_loop_no_browser [of env url 0 s]
  by (simp add: scrape_url_def split: prod.splits sum.splits)

lemma snd_cleanup:
  "snd (cleanup env s) =
     (case browser s of
        None \<Rightarrow> s
      | Some Chrome \<Rightarrow> log EvQuit s
      | Some Pyppeteer \<Rightarrow> log EvClose s)"
  by (simp add: cleanup_def split: option.splits browser.splits)

lemma snd_main: "snd (main env url) = snd (cleanup env (snd (scrape_url env url init_scraper)))"
  by (simp add: main_def split: prod.splits sum.splits)

lemma events_main:
  "events (snd (main env url)) =
     (case browser (snd (scrape_url env url init_scraper)) of
        None \<Rightarrow> []
      | Some Chrome \<Rightarrow> events (snd (scrape_url env url init_scraper)) @ [EvQuit]
      | Some Pyppeteer \<Rightarrow> events (snd (scrape_url env url init_scraper)) @ [EvClose])"
proof (cases "browser (snd (scrape_url env url init_scraper))")
  case None
  then have "snd (scrape_url env url init_scraper) = init_scraper" by (rule scrape_url_no_browser)
  then have "snd (main env url) = init_scraper"
    by (simp add: snd_main snd_cleanup init_scraper_def)
  with None show ?thesis by (simp add: init_scraper_def)
next
  case (Some b)
  then show ?thesis
    by (cases b) (simp_all add: snd_main snd_cleanup)
qed

text \<open>
  Claim C3, as the code has it. \<^verbatim>\<open>scrape_url\<close> does not release the session itself (its
  handler quits a Selenium browser after a failed attempt, nothing more); the release is
  the \<^verbatim>\<open>cleanup\<close> step that the caller \<^verbatim>\<open>main\<close> runs in its \<^verbatim>\<open>finally\<close> clause. After
  \<^verbatim>\<open>main\<close>, whatever the outcome of the scrape, no session opened during the call is left
  open: \<^verbatim>\<open>quit()\<close> or \<^verbatim>\<open>close()\<close> has been called on it.
\<close>

theorem main_releases_session: "\<not> session_open (events (snd (main env url)))"
  by (simp add: events_main session_open_def split: option.splits browser.splits)

theorem main_releases_session_witness:
  "\<not> session_open (events (snd (main quiet_env ''https://example.org'')))"
  by (rule main_releases_session)

text \<open>
  A successful call of \<^verbatim>\<open>scrape_url\<close> alone: the Pyppeteer browser it launched is still
  open when it returns.
\<close>

theorem session_left_open_counterexample:
  "scrape_url quiet_env ''https://example.org'' init_scraper =
     (Inr (default_result quiet_env (join '' '' (replicate 60 ''word'')) ''https://example.org''),
      \<lparr>browser = Some Pyppeteer,
       events = [EvLaunch Pyppeteer, EvNewPage, EvGoto ''https://example.org'', EvContent,
                 EvPageClose]\<rparr>) \<and>
   session_open (events (snd (scrape_url quiet_env ''https://example.org'' init_scraper)))"
  by (simp add: run_defs quiet_env_def words_clean words_nonempty session_open_def)

section \<open>Exhausted retries\<close>

text \<open>
  Claim C4. When the first attempt raises, the handler lets the loop go on, and the second
  attempt raises too, \<^verbatim>\<open>scrape_url\<close> returns (it raises nothing) the dictionary whose
  "error" is the message of the last exception: that of the second attempt, or that of
  \<^verbatim>\<open>quit()\<close> when the handler's \<^verbatim>\<open>quit()\<close> raises after it.
\<close>

theorem scrape_url_both_fail:
  assumes "attempt_body env url 0 s = (Inl e0, s1)"
    and "on_failure env 0 s1 = (None, s1')"
    and "attempt_body env url 1 s1' = (Inl e1, s2)"
  shows "scrape_url env url s =
           (Inr (JDict [(''error'',
                         JStr (str_exn (case fst (on_failure env 1 s2) of None \<Rightarrow> e1 | Some q \<Rightarrow> q)))]),
            snd (on_failure env 1 s2)) \<and>
         has_key ''error'' (JDict [(''error'',
                         JStr (str_exn (case fst (on_failure env 1 s2) of None \<Rightarrow> e1 | Some q \<Rightarrow> q)))])"
  using assms
  by (simp add: scrape_url_second error_result_def split: prod.splits option.splits)

theorem scrape_url_both_fail_witness:
  "scrape_url both_fail_env ''https://example.org'' init_scraper =
     (Inr (JDict [(''error'', JStr ''net::ERR_NAME_NOT_RESOLVED'')]),
      \<lparr>browser = Some Chrome,
       events = [EvLaunch Chrome, EvGet ''https://example.org'', EvQuit]\<rparr>)"
proof -
  let ?s2 = "\<lparr>browser = Some Chrome, events = [EvLaunch Chrome, EvGet ''https://example.org'']\<rparr>"
  have a0: "attempt_body both_fail_env ''https://example.org'' 0 init_scraper =
              (Inl (Exception ''Browser closed unexpectedly''), init_scraper)"
    by (simp add: run_defs both_fail_env_def quiet_env_def)
  have h0: "on_failure both_fail_env 0 init_scraper = (None, init_scraper)"
    by (simp add: run_defs)
  have a1: "attempt_body both_fail_env ''https://example.org'' 1 init_scraper =
              (Inl (Exception ''net::ERR_NAME_NOT_RESOLVED''), ?s2)"
    by (simp add: run_defs both_fail_env_def quiet_env_def)
  have h1: "on_failure both_fail_env (Suc 0) ?s2 =
              (None, \<lparr>browser = Some Chrome,
                      events = [EvLaunch Chrome, EvGet ''https://example.org'', EvQuit]\<rparr>)"
    by (simp add: run_defs both_fail_env_def quiet_env_def)
  from scrape_url_both_fail [OF a0 h0 a1] show ?thesis
    by (simp add: h1)
qed

section \<open>The answer of the language model\<close>

text \<open>
  Claim C7 at an answer that is JSON and no object. The answer \<^verbatim>\<open>5\<close> parses to the integer
  5; the test \<^verbatim>\<open>"text" in result_json\<close> raises a TypeError, which the handler for
  \<^verbatim>\<open>json.JSONDecodeError\<close> does not catch, and the outer handler returns an error result
  where the default metadata was due.
\<close>

theorem number_reply_is_error:
  "completion number_env ''Ports of the Baltic'' ''https://example.org'' = Inr ''5'' \<and>
   json_loads number_env (strip ''5'') = Inr (JInt 5) \<and>
   process_with_llm number_env ''Ports of the Baltic'' ''https://example.org''
     = JDict [(''error'',
               JStr (''argument of type '' @ [CHR 0x27] @ ''int'' @ [CHR 0x27] @ '' is not iterable''))] \<and>
   process_with_llm number_env ''Ports of the Baltic'' ''https://example.org''
     \<noteq> default_result number_env ''Ports of the Baltic'' ''https://example.org''"
  by (simp add: process_with_llm_def parse_result_def number_env_def quiet_env_def strip_def
      py_isspace_def not_iterable_def error_result_def default_result_def)

text \<open>
  Claim C8, as the code has it. An answer that parses to an object with the keys "text" and
  "metadata" is returned as it is: the metadata, and with it \<open>last_verified\<close>, is that of
  the language model, absent when the model left it out. The current date is set in the
  fallback default only.
\<close>

theorem accepted_reply_verbatim:
  assumes "completion env text url = Inr reply"
    and "json_loads env (strip reply) = Inr (JDict kvs)"
    and "''text'' \<in> set (map fst kvs)"
    and "''metadata'' \<in> set (map fst kvs)"
  shows "process_with_llm env text url = JDict kvs \<and>
         last_verified (process_with_llm env text url) = last_verified (JDict kvs) \<and>
         last_verified (default_result env text url) = Some (JStr (today env))"
  using assms
  by (simp add: process_with_llm_def parse_result_def last_verified_def default_result_def)

theorem accepted_reply_verbatim_witness:
  "process_with_llm title_only_env ''Ports of the Baltic'' ''https://example.org'' = title_only \<and>
   last_verified (default_result title_only_env ''Ports of the Baltic'' ''https://example.org'')
     = Some (JStr ''2026-11-04'')"
proof -
  have h1: "completion title_only_env ''Ports of the Baltic'' ''https://example.org''
              = Inr title_only_reply"
    by (simp add: title_only_env_def quiet_env_def)
  have h2: "json_loads title_only_env (strip title_only_reply)
              = Inr (JDict [(''text'', JStr ''Ports of the Baltic''),
                            (''metadata'', JDict [(''title'', JStr ''Ports of the Baltic'')])])"
    by (simp add: title_only_env_def quiet_env_def title_only_def strip_title_only_reply)
  have h3: "''text'' \<in> set (map fst [(''text'', JStr ''Ports of the Baltic''),
                            (''metadata'', JDict [(''title'', JStr ''Ports of the Baltic'')])])"
    by simp
  have h4: "''metadata'' \<in> set (map fst [(''text'', JStr ''Ports of the Baltic''),
                            (''metadata'', JDict [(''title'', JStr ''Ports of the Baltic'')])])"
    by simp
  from accepted_reply_verbatim [OF h1 h2 h3 h4] show ?thesis
    by (simp add: title_only_def title_only_env_def quiet_env_def)
qed

text \<open>
  An accepted answer whose metadata is a title only: the metadata returned has no
  \<open>last_verified\<close>, although the current date is known.
\<close>

theorem last_verified_counterexample:
  "completion title_only_env ''Ports of the Baltic'' ''https://example.org''
     = Inr title_only_reply \<and>
   json_loads title_only_env (strip title_only_reply) = Inr title_only \<and>
   py_in ''text'' title_only = Inr True \<and>
   py_in ''metadata'' title_only = Inr True \<and>
   lookup ''metadata'' title_only = Some (JDict [(''title'', JStr ''Ports of the Baltic'')]) \<and>
   last_verified (process_with_llm title_only_env ''Ports of the Baltic'' ''https://example.org'')
     = None \<and>
   today title_only_env = ''2026-11-04''"
  by (simp add: process_with_llm_def parse_result_def title_only_env_def quiet_env_def
      title_only_def last_verified_def strip_title_only_reply)

section \<open>What the scraper returns\<close>

lemma has_key_error_result [simp]:
  "has_key ''error'' (error_result e)" "\<not> has_key ''text'' (error_result e)"
  by (simp_all add: error_result_def)

lemma has_key_no_content [simp]:
  "has_key ''error'' no_content" "\<not> has_key ''text'' no_content"
  by (simp_all add: no_content_def)

lemma has_key_default_result [simp]:
  "has_key ''text'' (default_result env text url)"
  "\<not> has_key ''error'' (default_result env text url)"
  by (simp_all add: default_result_def)

lemma process_with_llm_shape:
  "(has_key ''text'' (process_with_llm env text url)
      \<noteq> has_key ''error'' (process_with_llm env text url)) \<or>
   (\<exists>reply. completion env text url = Inr reply \<and>
      json_loads env (strip reply) = Inr (process_with_llm env text url) \<and>
      py_in ''text'' (process_with_llm env text url) = Inr True \<and>
      py_in ''metadata'' (process_with_llm env text url) = Inr True)"
proof (cases "completion env text url")
  case (Inl e)
  then show ?thesis by (simp add: process_with_llm_def)
next
  case (Inr reply)
  show ?thesis
  proof (cases "parse_result env (strip reply)")
    case (Inl e)
    with Inr show ?thesis by (simp add: process_with_llm_def)
  next
    case r: (Inr v)
    show ?thesis
    proof (cases v)
      case None
      with Inr r show ?thesis by (simp add: process_with_llm_def)
    next
      case (Some j)
      with r have "json_loads env (strip reply) = Inr j \<and> py_in ''text'' j = Inr True \<and>
                   py_in ''metadata'' j = Inr True"
        by (auto simp: parse_result_def split: sum.splits exn.splits bool.splits if_splits)
      moreover have "process_with_llm env text url = j"
        using Inr r Some by (simp add: process_with_llm_def)
      ultimately show ?thesis using Inr by simp
    qed
  qed
qed

lemma selenium_scrape_result:
  "selenium_scrape env url n s = (Inr r, s') \<Longrightarrow>
     r = no_content \<or> (\<exists>c. r = process_with_llm env c url)"
  by (auto simp: selenium_scrape_def Let_def split: option.splits sum.splits if_splits)

lemma pyppeteer_scrape_result:
  "pyppeteer_scrape env url n s = (Inr r, s') \<Longrightarrow>
     r = no_content \<or> (\<exists>c. r = process_with_llm env c url)"
  by (auto simp: pyppeteer_scrape_def Let_def split: option.splits sum.splits if_splits)

lemma attempt_body_result:
  "attempt_body env url n s = (Inr r, s') \<Longrightarrow>
     r = no_content \<or> (\<exists>c. r = process_with_llm env c url)"
  unfolding attempt_body_def
  by (auto split: prod.splits sum.splits if_splits
      dest: selenium_scrape_result pyppeteer_scrape_result)

lemma scrape_url_result:
  assumes "fst (scrape_url env url s) = Inr r"
  shows "r = no_content \<or> (\<exists>e. r = error_result e) \<or> (\<exists>c. r = process_with_llm env c url)"
proof -
  obtain x s1 where a0: "attempt_body env url 0 s = (x, s1)"
    by (cases "attempt_body env url 0 s")
  show ?thesis
  proof (cases x)
    case (Inr r0)
    with a0 assms have "r = r0" by (simp add: scrape_url_first_return)
    with a0 Inr attempt_body_result [of env url 0 s r0 s1] show ?thesis by blast
  next
    case (Inl e0)
    obtain q s1' where h0: "on_failure env 0 s1 = (q, s1')"
      by (cases "on_failure env 0 s1")
    show ?thesis
    proof (cases q)
      case (Some qe)
      with a0 Inl h0 assms have "r = error_result qe"
        by (simp add: scrape_url_def scrape_loop_0)
      then show ?thesis by blast
    next
      case None
      obtain y s2 where a1: "attempt_body env url 1 s1' = (y, s2)"
        by (cases "attempt_body env url 1 s1'")
      have eq: "scrape_url env url s =
         (case attempt_body env url 1 s1' of
            (Inr r, s2) \<Rightarrow> (Inr r, s2)
          | (Inl e1, s2) \<Rightarrow>
              (case on_failure env 1 s2 of
                 (Some q, s3) \<Rightarrow> (Inr (error_result q), s3)
               | (None, s3) \<Rightarrow> (Inr (error_result e1), s3)))"
        using a0 Inl h0 None by (simp add: scrape_url_second)
      show ?thesis
      proof (cases y)
        case (Inr r1)
        with eq a1 assms have "r = r1" by simp
        with a1 Inr attempt_body_result [of env url 1 s1' r1 s2] show ?thesis by blast
      next
        case e1: (Inl e1)
        with eq a1 assms have "\<exists>e. r = error_result e"
          by (auto split: prod.splits option.splits)
        then show ?thesis by blast
      qed
    qed
  qed
qed

text \<open>
  Claim C9, as the code has it. What \<^verbatim>\<open>scrape_url\<close> returns has exactly one of the keys
  "text" and "error", unless it is the object of the language model itself, accepted
  for its keys "text" and "metadata" and returned as it is.
\<close>

theorem scrape_url_variants:
  assumes "fst (scrape_url env url s) = Inr r"
  shows "(has_key ''text'' r \<noteq> has_key ''error'' r) \<or>
         (\<exists>text reply. completion env text url = Inr reply \<and>
            json_loads env (strip reply) = Inr r \<and>
            py_in ''text'' r = Inr True \<and> py_in ''metadata'' r = Inr True)"
proof -
  from scrape_url_result [OF assms]
  consider "r = no_content" | e where "r = error_result e"
    | c where "r = process_with_llm env c url"
    by blast
  then show ?thesis
  proof cases
    case 1
    then show ?thesis by simp
  next
    case 2
    then show ?thesis by simp
  next
    case 3
    with process_with_llm_shape [of env c url] show ?thesis by blast
  qed
qed

lemma text_and_error_run:
  "fst (scrape_url text_and_error_env ''https://example.org'' init_scraper) = Inr text_and_error"
  by (simp add: run_defs text_and_error_env_def quiet_env_def words_clean words_nonempty
      text_and_error_def strip_text_and_error_reply)

theorem scrape_url_variants_witness:
  "has_key ''text'' text_and_error = has_key ''error'' text_and_error \<and>
   (\<exists>text reply. completion text_and_error_env text ''https://example.org'' = Inr reply \<and>
      json_loads text_and_error_env (strip reply) = Inr text_and_error \<and>
      py_in ''text'' text_and_error = Inr True \<and> py_in ''metadata'' text_and_error = Inr True)"
proof -
  have k: "has_key ''text'' text_and_error = has_key ''error'' text_and_error"
    by (simp add: text_and_error_def)
  with scrape_url_variants [OF text_and_error_run] show ?thesis by blast
qed

text \<open>
  The language model answers with an object that has "text", "metadata" and "error": it
  is what \<^verbatim>\<open>scrape_url\<close> returns.
\<close>

theorem text_and_error_counterexample:
  "fst (scrape_url text_and_error_env ''https://example.org'' init_scraper) = Inr text_and_error \<and>
   has_key ''text'' text_and_error \<and> has_key ''error'' text_and_error"
  by (simp add: run_defs text_and_error_env_def quiet_env_def words_clean words_nonempty
      text_and_error_def strip_text_and_error_reply)

section \<open>The route\<close>

text \<open>
  Claim C10. For a url that is not empty, the route never calls the scraper; the text it
  embeds and the text of the document it stores is the constant
  "THIS IS THE CONTENT OF DOCUMENT 4", which is also the content it answers with, and
  the texts of its calls are the same for every such url.
\<close>

theorem create_document_constant_text:
  assumes "url \<noteq> []"
  shows "document_text = ''THIS IS THE CONTENT OF DOCUMENT 4'' \<and>
         (\<forall>c\<in>set (snd (create_document env url)).
            \<not> is_scrape c \<and> (\<forall>t\<in>set (call_texts c). t = Some document_text)) \<and>
         (\<forall>r. fst (create_document env url) = Inr r \<longrightarrow> content r = document_text) \<and>
         (\<forall>url'. url' \<noteq> [] \<longrightarrow>
            map call_texts (snd (create_document env url'))
              = map call_texts (snd (create_document env url)))"
  using assms
  by (auto simp: create_document_def document_text_def Let_def split: sum.splits)

theorem create_document_constant_text_witness:
  "snd (create_document quiet_route_env ''https://example.org'') =
     [EmbedCall ''THIS IS THE CONTENT OF DOCUMENT 4'',
      StoreCall [[(''text'', ''THIS IS THE CONTENT OF DOCUMENT 4''),
                  (''title'', ''Scraped Document''),
                  (''source_url'', ''https://example.org'')]] [[1, 2, 3]]] \<and>
   list_all (\<lambda>c. \<not> is_scrape c \<and>
                 list_all (\<lambda>t. t = Some ''THIS IS THE CONTENT OF DOCUMENT 4'') (call_texts c))
     (snd (create_document quiet_route_env ''https://example.org''))"
proof -
  have h: "''https://example.org'' \<noteq> []" by simp
  have "snd (create_document quiet_route_env ''https://example.org'') =
     [EmbedCall ''THIS IS THE CONTENT OF DOCUMENT 4'',
      StoreCall [[(''text'', ''THIS IS THE CONTENT OF DOCUMENT 4''),
                  (''title'', ''Scraped Document''),
                  (''source_url'', ''https://example.org'')]] [[1, 2, 3]]]"
    by (simp add: create_document_def quiet_route_env_def document_text_def Let_def)
  moreover have "list_all (\<lambda>c. \<not> is_scrape c \<and>
                 list_all (\<lambda>t. t = Some ''THIS IS THE CONTENT OF DOCUMENT 4'') (call_texts c))
     (snd (create_document quiet_route_env ''https://example.org''))"
    using conjunct1 [OF conjunct2 [OF create_document_constant_text [OF h, of quiet_route_env]]]
    by (simp only: list_all_iff document_text_def)
  ultimately show ?thesis by (rule conjI)
qed

end
